theory Spec2Isabelle
  imports Main "HOL-Library.Sublist"
begin

section \<open>String primitives of the host language\<close>

text \<open>
  The source is TypeScript. A string is modelled as a \<open>string\<close>: one \<open>char\<close> stands for
  one code unit below 256. The functions of this section are the library functions of
  \<open>String.prototype\<close> and \<open>Array.prototype\<close> that \<open>streamFileFromCursor\<close> calls.
\<close>

text \<open>\<open>s.endsWith(sep)\<close>.\<close>

definition endsWith :: "string \<Rightarrow> string \<Rightarrow> bool" where
  "endsWith s sep = suffix sep s"

text \<open>\<open>s.includes(sep)\<close>: \<open>sep\<close> occurs in \<open>s\<close> at some position.\<close>

fun includes_str :: "string \<Rightarrow> string \<Rightarrow> bool" where
  "includes_str [] sep = (sep = [])"
| "includes_str (c # cs) sep = (prefix sep (c # cs) \<or> includes_str cs sep)"

text \<open>
  \<open>s.split(sep)\<close> for a non-empty separator: the string is scanned from the left, every
  occurrence of \<open>sep\<close> found closes a segment and the scan goes on behind it. The result
  is never the empty array: \<open>''''.split(sep)\<close> is \<open>['''']\<close>.
\<close>

fun split_at :: "string \<Rightarrow> string \<Rightarrow> string list" where
  "split_at sep [] = [[]]"
| "split_at sep (c # cs) =
     (if prefix sep (c # cs) then [] # split_at sep (drop (length sep - 1) cs)
      else (case split_at sep cs of
              [] \<Rightarrow> [[c]]
            | seg # segs \<Rightarrow> (c # seg) # segs))"

text \<open>\<open>s.split(sep)\<close>; with the empty separator the result is the list of the code units.\<close>

definition split :: "string \<Rightarrow> string \<Rightarrow> string list" where
  "split s sep = (if sep = [] then map (\<lambda>c. [c]) s else split_at sep s)"

text \<open>
  The white space and line terminators that \<open>trim\<close> removes, among the code units below
  256: tab, line feed, vertical tab, form feed, carriage return, space, no-break space.
\<close>

definition isWhiteSpace :: "char \<Rightarrow> bool" where
  "isWhiteSpace c = (of_char c \<in> {9, 10, 11, 12, 13, 32, 160 :: nat})"

text \<open>\<open>s.trim()\<close>.\<close>

definition trim :: "string \<Rightarrow> string" where
  "trim s = rev (dropWhile isWhiteSpace (rev (dropWhile isWhiteSpace s)))"

text \<open>
  The template literal \<open>`${tail}${chunks[0]}`\<close>: reading index 0 of an empty array gives
  \<open>undefined\<close>, which the template prints as the text \<open>undefined\<close>.
\<close>

definition template_tail_first :: "string \<Rightarrow> string list \<Rightarrow> string" where
  "template_tail_first tail chunks =
     tail @ (case chunks of [] \<Rightarrow> ''undefined'' | first # _ \<Rightarrow> first)"

text \<open>The assignment \<open>chunks[0] = v\<close>: on an empty array it makes the array \<open>[v]\<close>.\<close>

definition assign_first :: "string \<Rightarrow> string list \<Rightarrow> string list" where
  "assign_first v chunks = (case chunks of [] \<Rightarrow> [v] | _ # rest \<Rightarrow> v # rest)"

section \<open>The line splitter of \<open>streamFileFromCursor\<close>\<close>

text \<open>
  The body of the loop \<open>for await (const item of fileStream)\<close> (lines 214 to 237 of
  \<open>source/index.ts\<close>), for one item. It takes the separator \<open>EOL\<close> of the platform, the
  variable \<open>tail\<close> and the item as a string; it returns the new value of \<open>tail\<close> and the
  lines passed to \<open>this.emit('data', _)\<close>, in order. \<open>chunks.pop()\<close> is applied to the
  result of \<open>split\<close>, which is never empty, so it returns the last segment and removes it.
\<close>

definition for_await_body :: "string \<Rightarrow> string \<Rightarrow> string \<Rightarrow> string \<times> string list" where
  "for_await_body eol tail stringChunk =
     (let hasTail = \<not> endsWith stringChunk eol;
          chunks = split stringChunk eol;
          currentTail = (if hasTail then last chunks else []);
          chunks = (if hasTail then butlast chunks else chunks);
          chunks = assign_first (template_tail_first tail chunks) chunks
      in (currentTail, filter (\<lambda>chunk. trim chunk \<noteq> []) chunks))"

text \<open>The whole loop over the items of the stream: the lines emitted, in order.\<close>

fun for_await :: "string \<Rightarrow> string \<Rightarrow> string list \<Rightarrow> string list" where
  "for_await eol tail [] = []"
| "for_await eol tail (item # items) =
     (case for_await_body eol tail item of
        (tail', lines) \<Rightarrow> lines @ for_await eol tail' items)"

section \<open>Errors, file metadata and the answers of the platform\<close>

text \<open>
  An exception of the source is a value. \<open>Error message\<close> is \<open>new Error(message)\<close>, an
  object without a property \<open>code\<close>; \<open>SystemError c\<close> is an error raised by the file
  system primitives of the platform, with \<open>err.code = c\<close>.
\<close>

datatype error = Error string | SystemError string

fun err_code :: "error \<Rightarrow> string option" where
  "err_code (Error message) = None"
| "err_code (SystemError c) = Some c"

text \<open>
  The \<open>Stats\<close> object of \<open>promises.stat\<close>: its property \<open>size\<close>, and the value a call of
  its method \<open>isFile()\<close> would return.
\<close>

record Stats =
  st_size :: int
  st_isFile :: bool

text \<open>
  The condition of line 104 is \<open>!fileData?.isFile\<close>: it reads the property \<open>isFile\<close> and
  does not call it. The property of a \<open>Stats\<close> object is the method itself, a function
  object, and a function object is truthy.
\<close>

definition isFile_property_truthy :: "Stats \<Rightarrow> bool" where
  "isFile_property_truthy fileData = True"

text \<open>How an asynchronous call ends: it returns, it throws, or it never settles.\<close>

datatype 'a outcome = Returns 'a | Throws error | Never

text \<open>
  What the platform answers to one read pass: the line separator \<open>EOL\<close> of \<open>os\<close>, the
  answer of \<open>promises.stat(filePath)\<close>, and, for \<open>createReadStream(filePath, {start, end})\<close>,
  the items the stream delivers followed by the error it ends with, if any.
\<close>

record pass_env =
  EOL :: string
  stat :: "error + Stats"
  createReadStream :: "int \<Rightarrow> int \<Rightarrow> string list \<times> error option"

text \<open>
  An event on the watcher of the parent directory: \<open>'change'\<close> with its two arguments,
  or \<open>'error'\<close>.
\<close>

datatype dir_event = DirChange string string | DirError error

text \<open>
  What the platform answers to one call of \<open>processFromFileName\<close>: the \<open>stat\<close> of line 101,
  the events of the directory watcher of line 112, the answers to the catch-up pass of
  line 128, and whether \<open>watch(filePath, listener)\<close> of line 146 throws.
\<close>

record watch_env =
  stat_first :: "error + Stats"
  dir_events :: "dir_event list"
  catch_up :: pass_env
  fs_watch :: "error option"

section \<open>The session\<close>

text \<open>
  The private fields of the class \<open>TailCat\<close>, and what an observer of the session sees:
  \<^item> \<open>watcher\<close> holds the identity of the \<open>FSWatcher\<close>, a number, or \<open>None\<close> for \<open>undefined\<close>;
  \<^item> \<open>emitted\<close> is the sequence of values passed to \<open>emit('data', _)\<close> so far;
  \<^item> \<open>created\<close> counts the watchers made by \<open>watch(filePath, listener)\<close> so far, and
    \<open>live\<close> lists those of them that are not closed;
  \<^item> \<open>in_flight\<close> holds while a call of the listener is suspended in
    \<open>await this.streamFileFromCursor()\<close> of line 166;
  \<^item> \<open>passes\<close> counts the calls of \<open>streamFileFromCursor\<close>.
\<close>

record TailCat =
  cursor :: int
  isReading :: bool
  watcher :: "nat option"
  filePath :: string
  internalQueue :: int
  emitted :: "string list"
  created :: nat
  live :: "nat list"
  in_flight :: bool
  passes :: nat

text \<open>\<open>validateFileName\<close>, lines 14 to 18; \<open>None\<close> is the argument \<open>undefined\<close>.\<close>

definition validateFileName :: "string option \<Rightarrow> error option" where
  "validateFileName fileName =
     (if fileName = None then Some (Error ''No file name has been passed'') else None)"

text \<open>The initial values of the fields, lines 21 to 25, with the path of line 32.\<close>

definition initial :: "string \<Rightarrow> TailCat" where
  "initial fileName =
     \<lparr>cursor = 0, isReading = False, watcher = None, filePath = fileName,
      internalQueue = 0, emitted = [], created = 0, live = [], in_flight = False,
      passes = 0\<rparr>"

text \<open>The constructor, lines 27 to 33.\<close>

definition new_TailCat :: "string option \<Rightarrow> error + TailCat" where
  "new_TailCat fileName =
     (case validateFileName fileName of
        Some err \<Rightarrow> Inl err
      | None \<Rightarrow> (case fileName of Some name \<Rightarrow> Inr (initial name)
                                   | None \<Rightarrow> Inl (Error ''No file name has been passed'')))"

text \<open>\<open>unwatch\<close>, lines 62 to 67: closes the watcher if there is one, returns the cursor.\<close>

definition unwatch :: "TailCat \<Rightarrow> TailCat \<times> int" where
  "unwatch self =
     (self\<lparr>live := (case watcher self of None \<Rightarrow> live self
                                        | Some h \<Rightarrow> removeAll h (live self)),
            watcher := None\<rparr>,
      cursor self)"

text \<open>
  \<open>streamFileFromCursor\<close>, lines 186 to 240. The variable \<open>tail\<close> of line 211 is local to
  the call and starts empty. The lines emitted before a failure of the stream stay
  emitted; the cursor is written only when the loop has ended without failure. The call
  is one step of the model: it reads and writes the fields at the moment it settles, and
  it counts itself in \<open>passes\<close>. The second component is the error it throws.
\<close>

definition streamFileFromCursor :: "pass_env \<Rightarrow> TailCat \<Rightarrow> TailCat \<times> error option" where
  "streamFileFromCursor env self0 =
     (let self = self0\<lparr>passes := passes self0 + 1\<rparr> in
      case stat env of
        Inl err \<Rightarrow> (self, Some err)
      | Inr st \<Rightarrow>
          let currentFileSize = st_size st in
          if currentFileSize \<le> 0 then (self, None)
          else
            let nextCursor = currentFileSize in
            if cursor self \<ge> nextCursor then (self, None)
            else
              (case createReadStream env (cursor self) nextCursor of
                 (items, failure) \<Rightarrow>
                   let self = self\<lparr>emitted := emitted self @ for_await (EOL env) [] items\<rparr>
                   in (case failure of
                         Some err \<Rightarrow> (self, Some err)
                       | None \<Rightarrow> (self\<lparr>cursor := nextCursor\<rparr>, None))))"

text \<open>
  \<open>basename\<close> of \<open>path\<close>, for POSIX paths: the part behind the last slash, trailing
  slashes ignored.
\<close>

definition basename :: "string \<Rightarrow> string" where
  "basename p =
     rev (takeWhile (\<lambda>c. c \<noteq> CHR ''/'') (dropWhile (\<lambda>c. c = CHR ''/'') (rev p)))"

text \<open>
  \<open>directoryWatcher\<close>, lines 74 to 91, over the events of the watcher of the parent
  directory: the promise resolves at the first \<open>'rename'\<close> of the watched name, rejects at
  the first error, and does not settle when neither comes.
\<close>

fun directoryWatcher :: "string \<Rightarrow> dir_event list \<Rightarrow> unit outcome" where
  "directoryWatcher path [] = Never"
| "directoryWatcher path (DirChange event fileName # rest) =
     (if event = ''rename'' \<and> fileName = basename path then Returns ()
      else directoryWatcher path rest)"
| "directoryWatcher path (DirError err # rest) = Throws err"

text \<open>
  \<open>processFromFileName\<close>, lines 96 to 146, up to the creation of the watcher. The first
  component of \<open>stat_and_wait\<close> is \<open>currentFileSize\<close>, \<open>None\<close> for \<open>undefined\<close>: it stays
  undefined when \<open>stat\<close> has failed with \<open>ENOENT\<close>. A comparison of a number with
  \<open>undefined\<close> is false. The test \<open>this.#cursor === undefined\<close> of line 119 never holds
  (the field is a number: it starts at 0 and \<open>watch\<close> assigns it a number), so its branch
  is not in the model.
\<close>

definition stat_and_wait :: "watch_env \<Rightarrow> TailCat \<Rightarrow> unit outcome + int option" where
  "stat_and_wait env self =
     (case stat_first env of
        Inr fileData \<Rightarrow>
          if \<not> isFile_property_truthy fileData then Inl (Throws (Error ''Can only watch files''))
          else Inr (Some (st_size fileData))
      | Inl err \<Rightarrow>
          if err_code err \<noteq> Some ''ENOENT'' then Inl (Throws err)
          else (case directoryWatcher (filePath self) (dir_events env) of
                  Returns _ \<Rightarrow> Inr None
                | Throws e \<Rightarrow> Inl (Throws e)
                | Never \<Rightarrow> Inl Never))"

definition processFromFileName :: "watch_env \<Rightarrow> TailCat \<Rightarrow> TailCat \<times> unit outcome" where
  "processFromFileName env self =
     (case stat_and_wait env self of
        Inl out \<Rightarrow> (self, out)
      | Inr currentFileSize \<Rightarrow>
          (case (if (case currentFileSize of None \<Rightarrow> False | Some sz \<Rightarrow> cursor self < sz)
                 then streamFileFromCursor (catch_up env) self
                 else (self, None)) of
             (self, Some err) \<Rightarrow> (self, Throws err)
           | (self, None) \<Rightarrow>
               let self = (case currentFileSize of
                             None \<Rightarrow> self
                           | Some sz \<Rightarrow> if cursor self > sz then self\<lparr>cursor := sz\<rparr> else self)
               in if watcher self \<noteq> None then (self, Returns ())
                  else (case fs_watch env of
                          Some err \<Rightarrow> (self, Throws err)
                        | None \<Rightarrow>
                            (self\<lparr>watcher := Some (created self),
                                  live := live self @ [created self],
                                  created := created self + 1\<rparr>,
                             Returns ()))))"

text \<open>
  \<open>watch\<close>, lines 40 to 55. The argument is the option \<open>cursor\<close>, \<open>None\<close> when it is
  omitted or \<open>undefined\<close>: the default of the parameter is then the stored cursor.
\<close>

definition watch :: "int option \<Rightarrow> watch_env \<Rightarrow> TailCat \<Rightarrow> TailCat \<times> unit outcome" where
  "watch cursor_option env self =
     (let cursor_arg = (case cursor_option of None \<Rightarrow> cursor self | Some c \<Rightarrow> c) in
      if watcher self \<noteq> None then (self, Returns ())
      else processFromFileName env (self\<lparr>cursor := cursor_arg\<rparr>))"

text \<open>
  The listener of line 146, from its call to its first suspension: lines 147 to 166.
  When no pass is being read it sets \<open>isReading\<close> and calls \<open>streamFileFromCursor\<close>, which
  suspends the listener.
\<close>

definition listener :: "string \<Rightarrow> TailCat \<Rightarrow> TailCat" where
  "listener event self0 =
     (if event = ''rename'' then self0
      else
        let self = self0\<lparr>internalQueue := internalQueue self0 + 1\<rparr> in
        if isReading self then self
        else self\<lparr>isReading := True, in_flight := True\<rparr>)"

text \<open>
  The rest of the listener, lines 166 to 179, run when the awaited pass settles: the pass
  itself with the answers of the platform, then the decrement, or the \<open>catch\<close> block, then
  the test of the \<open>do ... while\<close> loop. When the loop goes on, the next pass is called and
  the listener is suspended again. The second component is the error the listener throws.
\<close>

definition pass_settles :: "pass_env \<Rightarrow> TailCat \<Rightarrow> TailCat \<times> error option" where
  "pass_settles env self0 =
     (case streamFileFromCursor env self0 of
        (self, None) \<Rightarrow>
          let self = self\<lparr>internalQueue := internalQueue self - 1\<rparr> in
          if internalQueue self \<noteq> 0 then (self\<lparr>isReading := True\<rparr>, None)
          else (self\<lparr>isReading := False, in_flight := False\<rparr>, None)
      | (self, Some err) \<Rightarrow>
          if err_code err \<noteq> Some ''ENOENT''
          then (fst (unwatch self)\<lparr>in_flight := False\<rparr>, Some err)
          else
            let self = self\<lparr>internalQueue := 0, isReading := False\<rparr> in
            if internalQueue self \<noteq> 0 then (self\<lparr>isReading := True\<rparr>, None)
            else (self\<lparr>isReading := False, in_flight := False\<rparr>, None))"

section \<open>Runs of a session\<close>

text \<open>
  What can happen to a session, one step at a time: a call of \<open>watch\<close> or \<open>unwatch\<close>, a
  notification of the file watcher (delivered only while a watcher is attached), and the
  settling of the pass the listener awaits (only while one is in flight). A call of
  \<open>watch\<close> and a pass are each one step: the platform's answers to it are part of the step.
\<close>

datatype action =
    Watch "int option" watch_env
  | Unwatch
  | Notify string
  | Settle pass_env

fun exec :: "action \<Rightarrow> TailCat \<Rightarrow> TailCat" where
  "exec (Watch cursor_option env) self = fst (watch cursor_option env self)"
| "exec Unwatch self = fst (unwatch self)"
| "exec (Notify event) self = (if watcher self = None then self else listener event self)"
| "exec (Settle env) self = (if in_flight self then fst (pass_settles env self) else self)"

fun run :: "action list \<Rightarrow> TailCat \<Rightarrow> TailCat" where
  "run [] self = self"
| "run (a # as) self = run as (exec a self)"

section \<open>Regular files and directories\<close>

text \<open>
  The primitives of \<open>fs\<close> are not code of the repository. The definitions of the session
  take their answers as arguments, and the general theorems hold for all answers. This
  section gives the answers of the platform for a regular file with a given content, for
  a directory and for a path with no entry, to run the session on concrete files.

  A read stream delivers the bytes of its range in items of \<open>highWaterMark\<close> bytes, the
  last one shorter when the range is not a multiple of it.
\<close>

fun items_of :: "nat \<Rightarrow> string \<Rightarrow> string list" where
  "items_of highWaterMark bytes =
     (if highWaterMark = 0 \<or> bytes = [] then []
      else take highWaterMark bytes # items_of highWaterMark (drop highWaterMark bytes))"

declare items_of.simps [simp del]

text \<open>
  \<open>createReadStream(path, {start, end})\<close> on a regular file with the given content: the
  range is from \<open>start\<close> to \<open>end\<close>, both inclusive, cut at the end of the file. The
  content is taken to be ASCII text: one \<open>char\<close> is one byte of the file and one code
  unit of the string \<open>item.toString()\<close>, so the size of the file is the length of the
  list and an item is the list of its bytes. For other content the decoding of
  \<open>toString\<close> is not modelled, and the files used below are all ASCII.
\<close>

definition read_file :: "nat \<Rightarrow> string \<Rightarrow> int \<Rightarrow> int \<Rightarrow> string list \<times> error option" where
  "read_file highWaterMark content start end' =
     (if start < 0 \<or> end' < start then ([], Some (SystemError ''ERR_OUT_OF_RANGE''))
      else (items_of highWaterMark (take (nat (end' - start + 1)) (drop (nat start) content)),
            None))"

definition regular_file :: "string \<Rightarrow> nat \<Rightarrow> string \<Rightarrow> pass_env" where
  "regular_file eol highWaterMark content =
     \<lparr>EOL = eol,
      stat = Inr \<lparr>st_size = int (length content), st_isFile = True\<rparr>,
      createReadStream = read_file highWaterMark content\<rparr>"

text \<open>A directory: \<open>stat\<close> succeeds with the size the file system reports, reading fails.\<close>

definition directory :: "string \<Rightarrow> int \<Rightarrow> pass_env" where
  "directory eol sz =
     \<lparr>EOL = eol,
      stat = Inr \<lparr>st_size = sz, st_isFile = False\<rparr>,
      createReadStream = (\<lambda>start end'. ([], Some (SystemError ''EISDIR'')))\<rparr>"

text \<open>A path with no entry: every primitive fails with \<open>ENOENT\<close>.\<close>

definition missing :: "string \<Rightarrow> pass_env" where
  "missing eol =
     \<lparr>EOL = eol,
      stat = Inl (SystemError ''ENOENT''),
      createReadStream = (\<lambda>start end'. ([], Some (SystemError ''ENOENT'')))\<rparr>"

text \<open>A call of \<open>watch\<close> on a path that stays as it is during the call, and can be watched.\<close>

definition steady :: "pass_env \<Rightarrow> watch_env" where
  "steady env = \<lparr>stat_first = stat env, dir_events = [], catch_up = env, fs_watch = None\<rparr>"

text \<open>
  The constants of the platform: \<open>EOL\<close> on POSIX systems, and the default
  \<open>highWaterMark\<close> of \<open>createReadStream\<close>, 64 KiB.
\<close>

definition posix_EOL :: string where
  "posix_EOL = ''\<newline>''"

definition default_highWaterMark :: nat where
  "default_highWaterMark = 65536"

section \<open>The watch handle of a session\<close>

text \<open>The watchers that are not closed are exactly the one the field \<open>watcher\<close> holds, if any.\<close>

definition one_handle :: "TailCat \<Rightarrow> bool" where
  "one_handle self = (live self = (case watcher self of None \<Rightarrow> [] | Some h \<Rightarrow> [h]))"

section \<open>Facts about the string primitives\<close>

lemma split_at_not_Nil: "split_at sep s \<noteq> []"
  by (induction s) (auto split: list.splits)

lemma prefix_includes: "prefix sep s \<Longrightarrow> includes_str s sep"
  by (cases s) auto

lemma suffix_includes: "suffix sep s \<Longrightarrow> includes_str s sep"
proof (induction s)
  case Nil
  then show ?case by simp
next
  case (Cons c cs)
  then show ?case by (auto simp: suffix_Cons)
qed

lemma split_at_no_separator:
  "\<not> includes_str s sep \<Longrightarrow> split_at sep s = [s]"
  by (induction s) (auto split: list.splits)

lemma trim_eq_Nil_iff: "trim s = [] \<longleftrightarrow> (\<forall>c \<in> set s. isWhiteSpace c)"
proof
  assume blank: "trim s = []"
  show "\<forall>c \<in> set s. isWhiteSpace c"
  proof (rule ccontr)
    assume "\<not> (\<forall>c \<in> set s. isWhiteSpace c)"
    then have ne: "dropWhile isWhiteSpace s \<noteq> []"
      by simp
    then have "\<not> isWhiteSpace (hd (dropWhile isWhiteSpace s))"
      by (rule hd_dropWhile)
    moreover have "hd (dropWhile isWhiteSpace s) \<in> set (dropWhile isWhiteSpace s)"
      using ne by simp
    ultimately show False
      using blank by (auto simp: trim_def)
  qed
next
  assume "\<forall>c \<in> set s. isWhiteSpace c"
  then show "trim s = []"
    by (auto simp: trim_def dest: set_dropWhileD)
qed

lemma undefined_not_blank: "trim (tail @ ''undefined'') \<noteq> []"
  by (simp add: trim_eq_Nil_iff isWhiteSpace_def)

section \<open>Facts about the session\<close>

lemma stream_frame [simp]:
  "watcher (fst (streamFileFromCursor env self)) = watcher self"
  "live (fst (streamFileFromCursor env self)) = live self"
  "created (fst (streamFileFromCursor env self)) = created self"
  "isReading (fst (streamFileFromCursor env self)) = isReading self"
  "internalQueue (fst (streamFileFromCursor env self)) = internalQueue self"
  "in_flight (fst (streamFileFromCursor env self)) = in_flight self"
  "filePath (fst (streamFileFromCursor env self)) = filePath self"
  "passes (fst (streamFileFromCursor env self)) = passes self + 1"
  by (simp_all add: streamFileFromCursor_def Let_def split: sum.split prod.split option.split)

lemma one_handle_initial: "one_handle (initial path)"
  by (simp add: one_handle_def initial_def)

lemma one_handle_unwatch: "one_handle self \<Longrightarrow> one_handle (fst (unwatch self))"
  by (simp add: one_handle_def unwatch_def split: option.splits)

lemma one_handle_stream: "one_handle self \<Longrightarrow> one_handle (fst (streamFileFromCursor env self))"
  by (simp add: one_handle_def)

lemma one_handle_process: "one_handle self \<Longrightarrow> one_handle (fst (processFromFileName env self))"
proof -
  assume inv: "one_handle self"
  obtain s1 r where sr: "streamFileFromCursor (catch_up env) self = (s1, r)"
    by (cases "streamFileFromCursor (catch_up env) self")
  have s1: "watcher s1 = watcher self" "live s1 = live self"
    using stream_frame(1,2) [of "catch_up env" self] sr by simp_all
  show ?thesis
    using inv s1 sr
    by (auto simp: processFromFileName_def one_handle_def Let_def
             split: sum.splits option.splits prod.splits if_splits)
qed

lemma one_handle_watch: "one_handle self \<Longrightarrow> one_handle (fst (watch c env self))"
proof -
  assume inv: "one_handle self"
  have "one_handle (self\<lparr>cursor := x\<rparr>)" for x
    using inv by (simp add: one_handle_def)
  then show ?thesis
    using inv by (simp add: watch_def Let_def one_handle_process)
qed

lemma one_handle_listener: "one_handle self \<Longrightarrow> one_handle (listener event self)"
  by (simp add: one_handle_def listener_def Let_def)

lemma one_handle_settles: "one_handle self \<Longrightarrow> one_handle (fst (pass_settles env self))"
proof -
  assume inv: "one_handle self"
  obtain s1 r where sr: "streamFileFromCursor env self = (s1, r)"
    by (cases "streamFileFromCursor env self")
  have s1: "watcher s1 = watcher self" "live s1 = live self"
    using stream_frame(1,2) [of env self] sr by simp_all
  show ?thesis
    using inv s1 sr
    by (auto simp: pass_settles_def one_handle_def Let_def unwatch_def
             split: option.splits)
qed

lemma one_handle_exec: "one_handle self \<Longrightarrow> one_handle (exec a self)"
  by (cases a)
     (simp_all add: one_handle_watch one_handle_unwatch one_handle_listener one_handle_settles)

lemma one_handle_run: "one_handle self \<Longrightarrow> one_handle (run acts self)"
  by (induction acts arbitrary: self) (simp_all add: one_handle_exec)

lemma one_handle_length: "one_handle self \<Longrightarrow> length (live self) \<le> 1"
  by (simp add: one_handle_def split: option.splits)

lemma watch_while_watching: "watcher self \<noteq> None \<Longrightarrow> watch c env self = (self, Returns ())"
  by (simp add: watch_def Let_def)

lemma stat_and_wait_not_Returns: "stat_and_wait env self \<noteq> Inl (Returns u)"
  by (simp add: stat_and_wait_def split: sum.split outcome.split)

lemma process_attaches:
  assumes "watcher self = None" and "snd (processFromFileName env self) = Returns ()"
  shows "watcher (fst (processFromFileName env self)) = Some (created self)
         \<and> created (fst (processFromFileName env self)) = created self + 1"
proof -
  obtain s1 r where sr: "streamFileFromCursor (catch_up env) self = (s1, r)"
    by (cases "streamFileFromCursor (catch_up env) self")
  have s1: "watcher s1 = watcher self" "created s1 = created self"
    using stream_frame(1,3) [of "catch_up env" self] sr by simp_all
  show ?thesis
    using assms s1 sr stat_and_wait_not_Returns [of env self]
    by (auto simp: processFromFileName_def Let_def
             split: sum.splits option.splits prod.splits if_splits)
qed

lemma process_guarded:
  assumes "watcher self \<noteq> None"
  shows "watcher (fst (processFromFileName env self)) = watcher self
         \<and> created (fst (processFromFileName env self)) = created self
         \<and> live (fst (processFromFileName env self)) = live self"
proof -
  obtain s1 r where sr: "streamFileFromCursor (catch_up env) self = (s1, r)"
    by (cases "streamFileFromCursor (catch_up env) self")
  have s1: "watcher s1 = watcher self" "created s1 = created self" "live s1 = live self"
    using stream_frame(1,2,3) [of "catch_up env" self] sr by simp_all
  show ?thesis
    using assms s1 sr
    by (auto simp: processFromFileName_def Let_def
             split: sum.splits option.splits prod.splits if_splits)
qed

lemma watch_attaches:
  assumes "watcher self = None" and "snd (watch c env self) = Returns ()"
  shows "watcher (fst (watch c env self)) = Some (created self)
         \<and> created (fst (watch c env self)) = created self + 1"
  using assms process_attaches [of "self\<lparr>cursor := (case c of None \<Rightarrow> cursor self | Some x \<Rightarrow> x)\<rparr>" env]
  by (simp add: watch_def Let_def)

lemma unwatch_twice: "unwatch (fst (unwatch self)) = (fst (unwatch self), snd (unwatch self))"
  by (simp add: unwatch_def)

lemma settle_ok:
  assumes "snd (streamFileFromCursor env self) = None"
  shows "pass_settles env self =
     (if internalQueue self - 1 \<noteq> 0
      then (fst (streamFileFromCursor env self)
              \<lparr>internalQueue := internalQueue self - 1, isReading := True\<rparr>, None)
      else (fst (streamFileFromCursor env self)
              \<lparr>internalQueue := internalQueue self - 1, isReading := False, in_flight := False\<rparr>,
            None))"
proof -
  obtain s1 where sr: "streamFileFromCursor env self = (s1, None)"
    using assms by (cases "streamFileFromCursor env self") simp
  have "internalQueue s1 = internalQueue self"
    using stream_frame(5) [of env self] sr by simp
  then show ?thesis
    using sr by (simp add: pass_settles_def Let_def)
qed

lemma exec_Notify: "watcher self \<noteq> None \<Longrightarrow> exec (Notify event) self = listener event self"
  by auto

lemma notify_while_reading:
  "watcher self \<noteq> None \<Longrightarrow> isReading self \<Longrightarrow>
   run (replicate k (Notify ''change'')) self = self\<lparr>internalQueue := internalQueue self + int k\<rparr>"
proof (induction k arbitrary: self)
  case 0
  then show ?case by simp
next
  case (Suc k)
  have step: "exec (Notify ''change'') self = self\<lparr>internalQueue := internalQueue self + 1\<rparr>"
    using Suc.prems by (auto simp: listener_def Let_def)
  have "run (replicate (Suc k) (Notify ''change'')) self =
        run (replicate k (Notify ''change'')) (self\<lparr>internalQueue := internalQueue self + 1\<rparr>)"
    by (simp only: replicate_Suc run.simps step)
  also have "\<dots> = self\<lparr>internalQueue := internalQueue self + 1\<rparr>
                      \<lparr>internalQueue := internalQueue (self\<lparr>internalQueue := internalQueue self + 1\<rparr>) + int k\<rparr>"
    using Suc.prems by (intro Suc.IH) simp_all
  finally show ?case
    by (simp add: add.assoc)
qed

lemma notify_when_idle:
  "watcher self \<noteq> None \<Longrightarrow> \<not> isReading self \<Longrightarrow>
   exec (Notify ''change'') self =
     self\<lparr>internalQueue := internalQueue self + 1, isReading := True, in_flight := True\<rparr>"
  by (auto simp: listener_def Let_def)

lemma stream_cursor_nonneg:
  "0 \<le> cursor self \<Longrightarrow> 0 \<le> cursor (fst (streamFileFromCursor env self))"
  by (simp add: streamFileFromCursor_def Let_def split: sum.split prod.split option.split)

lemma drain_queue:
  assumes "in_flight self" and "internalQueue self = int (length envs)" and "envs \<noteq> []"
    and "0 \<le> cursor self"
    and "\<forall>env \<in> set envs. \<forall>s. 0 \<le> cursor s \<longrightarrow> snd (streamFileFromCursor env s) = None"
  shows "passes (run (map Settle envs) self) = passes self + length envs
         \<and> internalQueue (run (map Settle envs) self) = 0
         \<and> \<not> isReading (run (map Settle envs) self)
         \<and> \<not> in_flight (run (map Settle envs) self)"
  using assms
proof (induction envs arbitrary: self)
  case Nil
  then show ?case by simp
next
  case (Cons env rest)
  have ok: "snd (streamFileFromCursor env self) = None"
    using Cons.prems(4,5) by simp
  show ?case
  proof (cases "rest = []")
    case True
    then show ?thesis
      using Cons.prems(1,2) by (simp add: settle_ok [OF ok])
  next
    case False
    define self' where "self' = exec (Settle env) self"
    have q: "internalQueue self - 1 \<noteq> 0"
      using Cons.prems(2) False by simp
    have s': "self' = fst (streamFileFromCursor env self)
              \<lparr>internalQueue := internalQueue self - 1, isReading := True\<rparr>"
      using Cons.prems(1) q by (simp add: self'_def settle_ok [OF ok])
    have a: "in_flight self'" using s' Cons.prems(1) by simp
    have b: "internalQueue self' = int (length rest)" using s' Cons.prems(2) by simp
    have c: "0 \<le> cursor self'"
      using s' stream_cursor_nonneg [OF Cons.prems(4), of env] by simp
    have d: "\<forall>env \<in> set rest. \<forall>s. 0 \<le> cursor s \<longrightarrow> snd (streamFileFromCursor env s) = None"
      using Cons.prems(5) by simp
    have p: "passes self' = passes self + 1" using s' by simp
    show ?thesis
      using Cons.IH [OF a b False c d] p by (simp add: self'_def)
  qed
qed

section \<open>Facts about regular files\<close>

lemma regular_file_sel [simp]:
  "stat (regular_file eol hwm content) = Inr \<lparr>st_size = int (length content), st_isFile = True\<rparr>"
  "EOL (regular_file eol hwm content) = eol"
  "createReadStream (regular_file eol hwm content) = read_file hwm content"
  by (simp_all add: regular_file_def)

lemma regular_file_pass_ok:
  "0 \<le> cursor s \<Longrightarrow> snd (streamFileFromCursor (regular_file eol hwm content) s) = None"
  by (simp add: streamFileFromCursor_def read_file_def Let_def)

lemma stream_regular:
  assumes "0 \<le> cursor self" and "cursor self < int (length content)"
  shows "streamFileFromCursor (regular_file eol hwm content) self =
           (self\<lparr>passes := passes self + 1,
                  emitted := emitted self
                    @ for_await eol [] (items_of hwm (drop (nat (cursor self)) content)),
                  cursor := int (length content)\<rparr>, None)"
proof -
  have "take (nat (int (length content) - cursor self + 1)) (drop (nat (cursor self)) content)
        = drop (nat (cursor self)) content"
    using assms by (intro take_all) simp
  then show ?thesis
    using assms
    by (auto simp: streamFileFromCursor_def regular_file_def read_file_def Let_def)
qed

lemma includes_newline: "includes_str s ''\<newline>'' \<longleftrightarrow> CHR ''\<newline>'' \<in> set s"
  by (induction s) auto

lemma body_no_separator:
  assumes "eol \<noteq> []" and "\<not> includes_str stringChunk eol"
  shows "for_await_body eol tail stringChunk = (stringChunk, [tail @ ''undefined''])"
proof -
  have no_suffix: "\<not> endsWith stringChunk eol"
    using assms(2) suffix_includes by (auto simp: endsWith_def)
  have whole: "split stringChunk eol = [stringChunk]"
    using assms by (simp add: split_def split_at_no_separator)
  show ?thesis
    using no_suffix whole undefined_not_blank [of tail]
    by (simp add: for_await_body_def assign_first_def template_tail_first_def)
qed

lemma body_newline_only:
  "trim tail \<noteq> [] \<Longrightarrow> for_await_body ''\<newline>'' tail ''\<newline>'' = ([], [tail])"
  by (simp add: for_await_body_def split_def endsWith_def assign_first_def
        template_tail_first_def trim_def)

lemma items_of_Nil [simp]: "items_of hwm [] = []"
  by (simp add: items_of.simps)

lemma items_of_full_then_newline:
  assumes "length s = hwm" and "0 < hwm"
  shows "items_of hwm (s @ ''\<newline>'') = [s, ''\<newline>'']"
proof -
  have "items_of hwm (s @ ''\<newline>'') = s # items_of hwm ''\<newline>''"
    using assms by (subst items_of.simps) simp
  also have "items_of hwm ''\<newline>'' = [''\<newline>'']"
    using assms(2) by (subst items_of.simps) simp
  finally show ?thesis .
qed

lemma long_line_lines:
  assumes "length s = hwm" and "0 < hwm" and "CHR ''\<newline>'' \<notin> set s" and "trim s \<noteq> []"
  shows "for_await ''\<newline>'' [] (items_of hwm (s @ ''\<newline>'')) = [''undefined'', s]"
proof -
  have a: "for_await_body ''\<newline>'' [] s = (s, [''undefined''])"
    using body_no_separator [of "''\<newline>''" s "[]"] assms(3) by (simp add: includes_newline)
  have b: "for_await_body ''\<newline>'' s ''\<newline>'' = ([], [s])"
    using assms(4) by (rule body_newline_only)
  show ?thesis
    by (simp only: items_of_full_then_newline [OF assms(1,2)] for_await.simps a b
          prod.case append.simps append_Nil2)
qed

lemma listener_pass_on_regular_file:
  assumes "in_flight self" and "internalQueue self = 1" and "0 \<le> cursor self"
    and "cursor self < int (length content)"
  shows "emitted (exec (Settle (regular_file eol hwm content)) self) =
           emitted self @ for_await eol [] (items_of hwm (drop (nat (cursor self)) content))"
  using assms by (simp add: pass_settles_def stream_regular Let_def)

text \<open>The definitions that evaluate a run on given files.\<close>

lemmas model_defs = watch_def processFromFileName_def stat_and_wait_def steady_def regular_file_def
  isFile_property_truthy_def initial_def Let_def streamFileFromCursor_def unwatch_def listener_def
  pass_settles_def read_file_def posix_EOL_def default_highWaterMark_def directory_def missing_def
  items_of.simps

lemmas splitter_defs = for_await_body_def split_def endsWith_def suffix_to_prefix
  assign_first_def template_tail_first_def trim_def isWhiteSpace_def

section \<open>The splitter on the scenario of the test suite\<close>

text \<open>
  Five terminated lines written in one batch and read by one pass are emitted as five
  lines, and a line cut by the boundary between two items of one stream is emitted once
  and whole, as long as each item contains a separator.
\<close>

lemma five_lines_scenario:
  "emitted
     (run [Watch None (steady (regular_file posix_EOL default_highWaterMark [])),
           Notify ''change'',
           Settle (regular_file posix_EOL default_highWaterMark
                     ''foo_0\<newline>foo_1\<newline>foo_2\<newline>foo_3\<newline>foo_4\<newline>'')]
        (initial ''app.log''))
   = [''foo_0'', ''foo_1'', ''foo_2'', ''foo_3'', ''foo_4'']"
  by (simp add: model_defs splitter_defs)

lemma item_boundary_inside_a_line:
  "for_await ''\<newline>'' [] [''one\<newline>tw'', ''o\<newline>three\<newline>''] = [''one'', ''two'', ''three'']"
  by (simp add: splitter_defs)

section \<open>A line longer than one item of the stream\<close>

text \<open>
  Claim C1 says that the lines emitted are exactly the non-blank lines written. The code
  departs from it on this input: a session watches an empty file, one write appends a line
  of 65536 letters and its terminator, and one notification is delivered. The stream
  delivers the line in two items, the first without a separator, and the session emits
  the text \<open>undefined\<close> before the line.
\<close>

theorem long_line_emits_undefined:
  "emitted
     (run [Watch None (steady (regular_file posix_EOL default_highWaterMark [])),
           Notify ''change'',
           Settle (regular_file posix_EOL default_highWaterMark
                     (replicate 65536 CHR ''a'' @ ''\<newline>''))]
        (initial ''app.log''))
   = [''undefined'', replicate 65536 CHR ''a'']"
proof -
  define line where "line = replicate 65536 CHR ''a''"
  have len: "length line = 65536" by (simp add: line_def)
  have nonl: "CHR ''\<newline>'' \<notin> set line" by (simp add: line_def)
  have "\<not> isWhiteSpace CHR ''a''" by (simp add: isWhiteSpace_def)
  then have nonblank: "trim line \<noteq> []"
    by (simp add: trim_eq_Nil_iff line_def)
  define busy where "busy = run [Watch None (steady (regular_file posix_EOL default_highWaterMark [])),
           Notify ''change''] (initial ''app.log'')"
  have busy: "in_flight busy" "internalQueue busy = 1" "cursor busy = 0" "emitted busy = []"
    by (simp_all add: busy_def model_defs)
  have "emitted (exec (Settle (regular_file ''\<newline>'' 65536 (line @ ''\<newline>''))) busy) =
        emitted busy @ for_await ''\<newline>'' [] (items_of 65536 (drop (nat (cursor busy)) (line @ ''\<newline>'')))"
    using busy len by (intro listener_pass_on_regular_file) simp_all
  also have "\<dots> = [''undefined'', line]"
    using long_line_lines [of line 65536] len nonl nonblank busy by simp
  finally show ?thesis
    by (simp add: busy_def line_def posix_EOL_def default_highWaterMark_def)
qed

section \<open>A line split across two passes\<close>

text \<open>
  Claim C2 says that a line whose terminator arrives in a later pass is emitted once and
  whole. The code departs from it on this input: a session watches an empty file; the
  first pass finds the content \<open>a\<newline>foo\<close>, the second pass the content
  \<open>a\<newline>foobar\<newline>\<close>. The fragment \<open>foo\<close> is held back by the first pass and lost
  when it ends, the cursor moves behind it, and the second pass emits \<open>bar\<close>.
\<close>

theorem split_line_lost:
  "emitted
     (run [Watch None (steady (regular_file posix_EOL default_highWaterMark [])),
           Notify ''change'',
           Settle (regular_file posix_EOL default_highWaterMark ''a\<newline>foo''),
           Notify ''change'',
           Settle (regular_file posix_EOL default_highWaterMark ''a\<newline>foobar\<newline>'')]
        (initial ''app.log'')) = [''a'', ''bar'']"
  by (simp add: model_defs splitter_defs)

section \<open>The first watch\<close>

text \<open>
  Claim C3, as stated, fails: on a new session a call of \<open>watch\<close> without a cursor emits
  the content the file already has.
\<close>

theorem first_watch_counterexample:
  "emitted (fst (watch None (steady (regular_file posix_EOL default_highWaterMark ''old\<newline>''))
                  (initial ''app.log''))) = [''old'']
   \<and> cursor (initial ''app.log'') = 0"
  by (simp add: model_defs splitter_defs)

text \<open>
  Claim C3, as amended. The cursor of a new session is 0, and a call of \<open>watch\<close> without
  a cursor starts there, not at the size of the file. When the \<open>stat\<close> of the call and the
  \<open>stat\<close> of the catch-up pass both report a positive size and neither the stream nor
  \<open>watch(filePath, listener)\<close> fails, the call opens the read stream at byte 0 with the
  size the pass observed as its end, emits what the loop of \<open>streamFileFromCursor\<close>
  produces from the items the stream delivers, leaves the cursor at the smaller of the two
  sizes observed, attaches the watcher and returns.
\<close>

theorem first_watch_reads_from_start:
  assumes "new_TailCat (Some path) = Inr self"
    and "stat_first env = Inr fileData" and "0 < st_size fileData"
    and "stat (catch_up env) = Inr st" and "0 < st_size st"
    and "createReadStream (catch_up env) 0 (st_size st) = (items, None)"
    and "fs_watch env = None"
  shows "cursor self = 0
         \<and> watch None env self =
           (self\<lparr>cursor := min (st_size st) (st_size fileData),
                  emitted := for_await (EOL (catch_up env)) [] items,
                  passes := 1, watcher := Some 0, live := [0], created := 1\<rparr>,
            Returns ())"
proof -
  have self: "self = initial path"
    using assms(1) by (simp add: new_TailCat_def validateFileName_def)
  have pass: "streamFileFromCursor (catch_up env) (initial path) =
      ((initial path)\<lparr>passes := 1,
                       emitted := for_await (EOL (catch_up env)) [] items,
                       cursor := st_size st\<rparr>, None)"
    using assms(4,5,6) by (simp add: streamFileFromCursor_def initial_def Let_def)
  have start: "watch None env (initial path) = processFromFileName env (initial path)"
    by (simp add: watch_def initial_def Let_def)
  have wait: "stat_and_wait env (initial path) = Inr (Some (st_size fileData))"
    using assms(2) by (simp add: stat_and_wait_def isFile_property_truthy_def)
  have "processFromFileName env (initial path) =
      ((initial path)\<lparr>cursor := min (st_size st) (st_size fileData),
                  emitted := for_await (EOL (catch_up env)) [] items,
                  passes := 1, watcher := Some 0, live := [0], created := 1\<rparr>,
            Returns ())"
    using assms(3,7)
    by (simp add: processFromFileName_def wait pass Let_def)
       (simp add: initial_def min_def)
  then show ?thesis
    by (simp add: self start) (simp add: initial_def)
qed

theorem first_watch_reads_from_start_witness:
  "watch None (steady (regular_file posix_EOL default_highWaterMark ''old\<newline>'')) (initial ''app.log'') =
     ((initial ''app.log'')\<lparr>cursor := 4, emitted := [''old''],
                  passes := 1, watcher := Some 0, live := [0], created := 1\<rparr>,
      Returns ())"
proof -
  have a: "new_TailCat (Some ''app.log'') = Inr (initial ''app.log'')"
    by (simp add: new_TailCat_def validateFileName_def)
  have b: "stat_first (steady (regular_file posix_EOL default_highWaterMark ''old\<newline>''))
           = Inr \<lparr>st_size = 4, st_isFile = True\<rparr>"
    by (simp add: steady_def)
  have c: "0 < st_size \<lparr>st_size = 4, st_isFile = True\<rparr>" by simp
  have d: "stat (catch_up (steady (regular_file posix_EOL default_highWaterMark ''old\<newline>'')))
           = Inr \<lparr>st_size = 4, st_isFile = True\<rparr>"
    by (simp add: steady_def)
  have e: "createReadStream (catch_up (steady (regular_file posix_EOL default_highWaterMark ''old\<newline>'')))
             0 (st_size \<lparr>st_size = 4, st_isFile = True\<rparr>) = ([''old\<newline>''], None)"
    by (simp add: steady_def read_file_def default_highWaterMark_def items_of.simps)
  have f: "fs_watch (steady (regular_file posix_EOL default_highWaterMark ''old\<newline>'')) = None"
    by (simp add: steady_def)
  have g: "for_await posix_EOL [] [''old\<newline>''] = [''old'']"
    by (simp add: posix_EOL_def splitter_defs)
  show ?thesis
    using first_watch_reads_from_start [OF a b c d c e f] g
    by (simp add: steady_def)
qed

section \<open>Notifications during a pass\<close>

text \<open>
  Claim C4, as stated, fails: three notifications that arrive while the first pass is in
  flight are followed by three more passes, four in all.
\<close>

theorem burst_counterexample:
  "passes
     (run [Watch None (steady (regular_file posix_EOL default_highWaterMark [])),
           Notify ''change'', Notify ''change'', Notify ''change'', Notify ''change'',
           Settle (regular_file posix_EOL default_highWaterMark ''a\<newline>''),
           Settle (regular_file posix_EOL default_highWaterMark ''a\<newline>''),
           Settle (regular_file posix_EOL default_highWaterMark ''a\<newline>''),
           Settle (regular_file posix_EOL default_highWaterMark ''a\<newline>'')]
        (initial ''app.log'')) = 4"
  by (simp add: model_defs)

text \<open>
  Claim C4, as amended. On a watching, idle session whose cursor is not negative a burst
  of \<open>k + 1\<close> data-change notifications starts one pass; each further notification of the
  burst only adds one to \<open>internalQueue\<close> and starts nothing. The listener in flight then runs one pass for each notification
  counted: when no pass fails and no other notification comes, \<open>k + 1\<close> passes have run
  when it ends, \<open>internalQueue\<close> is 0 and \<open>isReading\<close> is false. The \<open>k\<close> notifications
  received during the first pass give \<open>k\<close> further passes, not one.
\<close>

theorem notifications_queue_one_pass_each:
  assumes "watcher self \<noteq> None" and "\<not> isReading self" and "\<not> in_flight self"
    and "internalQueue self = 0" and "0 \<le> cursor self"
    and "length envs = Suc k"
    and "\<forall>env \<in> set envs. \<forall>s. 0 \<le> cursor s \<longrightarrow> snd (streamFileFromCursor env s) = None"
  shows "run (replicate (Suc k) (Notify ''change'')) self =
           self\<lparr>internalQueue := int (Suc k), isReading := True, in_flight := True\<rparr>
         \<and> passes (run (replicate (Suc k) (Notify ''change'') @ map Settle envs) self)
             = passes self + Suc k
         \<and> internalQueue (run (replicate (Suc k) (Notify ''change'') @ map Settle envs) self) = 0
         \<and> \<not> isReading (run (replicate (Suc k) (Notify ''change'') @ map Settle envs) self)
         \<and> \<not> in_flight (run (replicate (Suc k) (Notify ''change'') @ map Settle envs) self)"
proof -
  define busy where "busy = self\<lparr>internalQueue := int (Suc k), isReading := True, in_flight := True\<rparr>"
  have first: "exec (Notify ''change'') self =
      self\<lparr>internalQueue := 1, isReading := True, in_flight := True\<rparr>"
    using assms(1,2,4) notify_when_idle [of self] by simp
  have "run (replicate (Suc k) (Notify ''change'')) self =
        run (replicate k (Notify ''change''))
          (self\<lparr>internalQueue := 1, isReading := True, in_flight := True\<rparr>)"
    by (simp only: replicate_Suc run.simps first)
  also have "\<dots> = busy"
    using assms(1) by (subst notify_while_reading) (simp_all add: busy_def)
  finally have burst: "run (replicate (Suc k) (Notify ''change'')) self = busy" .
  have run_append: "run (xs @ ys) s = run ys (run xs s)" for xs ys s
    by (induction xs arbitrary: s) simp_all
  have "in_flight busy" "internalQueue busy = int (length envs)" "envs \<noteq> []" "0 \<le> cursor busy"
    using assms(5,6) by (auto simp: busy_def)
  from drain_queue [OF this assms(7)] have
    "passes (run (map Settle envs) busy) = passes busy + length envs
     \<and> internalQueue (run (map Settle envs) busy) = 0
     \<and> \<not> isReading (run (map Settle envs) busy)
     \<and> \<not> in_flight (run (map Settle envs) busy)" .
  moreover have "passes busy = passes self" by (simp add: busy_def)
  ultimately show ?thesis
    using burst assms(6) by (simp add: run_append busy_def)
qed

theorem notifications_queue_one_pass_each_witness:
  "passes (run (replicate (Suc 2) (Notify ''change'')
                @ map Settle [regular_file posix_EOL default_highWaterMark ''a\<newline>'',
                              regular_file posix_EOL default_highWaterMark ''a\<newline>b\<newline>'',
                              regular_file posix_EOL default_highWaterMark ''a\<newline>b\<newline>''])
             ((initial ''app.log'')\<lparr>watcher := Some 0, live := [0], created := 1\<rparr>)) = 3
   \<and> internalQueue (run (replicate (Suc 2) (Notify ''change'')
                @ map Settle [regular_file posix_EOL default_highWaterMark ''a\<newline>'',
                              regular_file posix_EOL default_highWaterMark ''a\<newline>b\<newline>'',
                              regular_file posix_EOL default_highWaterMark ''a\<newline>b\<newline>''])
             ((initial ''app.log'')\<lparr>watcher := Some 0, live := [0], created := 1\<rparr>)) = 0"
  using notifications_queue_one_pass_each
    [of "(initial ''app.log'')\<lparr>watcher := Some 0, live := [0], created := 1\<rparr>"
        "[regular_file posix_EOL default_highWaterMark ''a\<newline>'',
          regular_file posix_EOL default_highWaterMark ''a\<newline>b\<newline>'',
          regular_file posix_EOL default_highWaterMark ''a\<newline>b\<newline>'']" 2]
  by (simp add: regular_file_pass_ok initial_def)

section \<open>Deletion of the watched file\<close>

text \<open>
  Claim C5. When the pass the listener awaits fails with \<open>ENOENT\<close>, the listener throws
  nothing: it sets \<open>internalQueue\<close> to 0 and \<open>isReading\<close> to false and ends, the watcher
  stays attached, and a call of \<open>unwatch\<close> after it returns the cursor and leaves no
  watcher.
\<close>

theorem deleted_file_tolerated:
  assumes "snd (streamFileFromCursor env self) = Some err" and "err_code err = Some ''ENOENT''"
  shows "snd (pass_settles env self) = None
         \<and> internalQueue (fst (pass_settles env self)) = 0
         \<and> \<not> isReading (fst (pass_settles env self))
         \<and> \<not> in_flight (fst (pass_settles env self))
         \<and> watcher (fst (pass_settles env self)) = watcher self
         \<and> live (fst (pass_settles env self)) = live self
         \<and> snd (unwatch (fst (pass_settles env self))) = cursor (fst (pass_settles env self))
         \<and> watcher (fst (unwatch (fst (pass_settles env self)))) = None"
proof -
  obtain s1 where sr: "streamFileFromCursor env self = (s1, Some err)"
    using assms(1) by (cases "streamFileFromCursor env self") simp
  have s1: "watcher s1 = watcher self" "live s1 = live self"
    using stream_frame(1,2) [of env self] sr by simp_all
  show ?thesis
    using sr s1 assms(2) by (simp add: pass_settles_def Let_def unwatch_def)
qed

theorem deleted_file_tolerated_witness:
  "exec (Settle (missing posix_EOL))
     ((initial ''app.log'')\<lparr>watcher := Some 0, live := [0], created := 1, cursor := 6,
                             internalQueue := 3, isReading := True, in_flight := True\<rparr>)
   = (initial ''app.log'')\<lparr>watcher := Some 0, live := [0], created := 1, cursor := 6,
                             passes := 1\<rparr>
   \<and> snd (pass_settles (missing posix_EOL)
     ((initial ''app.log'')\<lparr>watcher := Some 0, live := [0], created := 1, cursor := 6,
                             internalQueue := 3, isReading := True, in_flight := True\<rparr>)) = None"
proof -
  have h: "snd (streamFileFromCursor (missing posix_EOL)
     ((initial ''app.log'')\<lparr>watcher := Some 0, live := [0], created := 1, cursor := 6,
                             internalQueue := 3, isReading := True, in_flight := True\<rparr>))
     = Some (SystemError ''ENOENT'')"
    by (simp add: streamFileFromCursor_def missing_def Let_def)
  have c: "err_code (SystemError ''ENOENT'') = Some ''ENOENT''" by simp
  show ?thesis
    using deleted_file_tolerated [OF h c]
    by (simp add: model_defs)
qed

section \<open>Idempotence of watch and unwatch\<close>

text \<open>
  Claim C6. In every run of a session at most one watcher of the file is open. A call of
  \<open>watch\<close> on a session that is watching changes nothing and returns, and a call that
  reaches the end of \<open>processFromFileName\<close> when a watcher is attached creates none. A
  call that returns on a session that was not watching has created exactly one watcher,
  and a call of \<open>watch\<close> right after it creates none. A call of \<open>unwatch\<close> leaves no
  watcher, and a second call right after it changes nothing and returns the same cursor.
\<close>

theorem watch_unwatch_idempotent:
  "length (live (run acts (initial path))) \<le> 1
   \<and> (watcher self \<noteq> None \<longrightarrow>
        watch c env self = (self, Returns ())
        \<and> watcher (fst (processFromFileName env self)) = watcher self
        \<and> created (fst (processFromFileName env self)) = created self
        \<and> live (fst (processFromFileName env self)) = live self)
   \<and> (watcher self = None \<and> snd (watch c env self) = Returns () \<longrightarrow>
        watcher (fst (watch c env self)) = Some (created self)
        \<and> created (fst (watch c env self)) = created self + 1
        \<and> watch c' env' (fst (watch c env self)) = (fst (watch c env self), Returns ()))
   \<and> unwatch (fst (unwatch self)) = (fst (unwatch self), snd (unwatch self))
   \<and> watcher (fst (unwatch self)) = None"
proof -
  have a: "length (live (run acts (initial path))) \<le> 1"
    by (rule one_handle_length, rule one_handle_run, rule one_handle_initial)
  have b: "watcher self \<noteq> None \<longrightarrow>
        watch c env self = (self, Returns ())
        \<and> watcher (fst (processFromFileName env self)) = watcher self
        \<and> created (fst (processFromFileName env self)) = created self
        \<and> live (fst (processFromFileName env self)) = live self"
    using process_guarded [of self env] by (simp add: watch_while_watching)
  have c: "watcher self = None \<and> snd (watch c env self) = Returns () \<longrightarrow>
        watcher (fst (watch c env self)) = Some (created self)
        \<and> created (fst (watch c env self)) = created self + 1
        \<and> watch c' env' (fst (watch c env self)) = (fst (watch c env self), Returns ())"
  proof
    assume h: "watcher self = None \<and> snd (watch c env self) = Returns ()"
    then have att: "watcher (fst (watch c env self)) = Some (created self)
         \<and> created (fst (watch c env self)) = created self + 1"
      using watch_attaches by blast
    then have "watcher (fst (watch c env self)) \<noteq> None" by simp
    then have "watch c' env' (fst (watch c env self)) = (fst (watch c env self), Returns ())"
      by (rule watch_while_watching)
    with att show "watcher (fst (watch c env self)) = Some (created self)
        \<and> created (fst (watch c env self)) = created self + 1
        \<and> watch c' env' (fst (watch c env self)) = (fst (watch c env self), Returns ())"
      by simp
  qed
  have d: "unwatch (fst (unwatch self)) = (fst (unwatch self), snd (unwatch self))"
    by (rule unwatch_twice)
  have e: "watcher (fst (unwatch self)) = None"
    by (simp add: unwatch_def)
  from a b c d e show ?thesis by blast
qed

theorem watch_unwatch_idempotent_witness:
  "watch (Some 7) (steady (missing posix_EOL))
     (fst (watch None (steady (regular_file posix_EOL default_highWaterMark [])) (initial ''app.log'')))
   = (fst (watch None (steady (regular_file posix_EOL default_highWaterMark [])) (initial ''app.log'')),
      Returns ())
   \<and> created (fst (watch None (steady (regular_file posix_EOL default_highWaterMark []))
                  (initial ''app.log''))) = 1
   \<and> watch (Some 3) (steady (regular_file posix_EOL default_highWaterMark ''a\<newline>''))
        ((initial ''app.log'')\<lparr>watcher := Some 0, live := [0], created := 1\<rparr>)
      = ((initial ''app.log'')\<lparr>watcher := Some 0, live := [0], created := 1\<rparr>, Returns ())
   \<and> length (live (run [Watch None (steady (regular_file posix_EOL default_highWaterMark [])),
                         Watch None (steady (regular_file posix_EOL default_highWaterMark [])),
                         Unwatch, Unwatch] (initial ''app.log''))) \<le> 1"
proof -
  have h: "watcher (initial ''app.log'') = None
           \<and> snd (watch None (steady (regular_file posix_EOL default_highWaterMark []))
                   (initial ''app.log'')) = Returns ()"
    by (simp add: model_defs)
  have c: "created (initial ''app.log'') = 0"
    by (simp add: initial_def)
  have w: "watcher ((initial ''app.log'')\<lparr>watcher := Some 0, live := [0], created := 1\<rparr>) \<noteq> None"
    by simp
  show ?thesis
    using h c w
      watch_unwatch_idempotent
      [where self = "initial ''app.log''" and c = None
         and env = "steady (regular_file posix_EOL default_highWaterMark [])"
         and c' = "Some 7" and env' = "steady (missing posix_EOL)"
         and path = "''app.log''"
         and acts = "[Watch None (steady (regular_file posix_EOL default_highWaterMark [])),
                         Watch None (steady (regular_file posix_EOL default_highWaterMark [])),
                         Unwatch, Unwatch]"]
      watch_unwatch_idempotent
      [where self = "(initial ''app.log'')\<lparr>watcher := Some 0, live := [0], created := 1\<rparr>"
         and c = "Some 3"
         and env = "steady (regular_file posix_EOL default_highWaterMark ''a\<newline>'')"]
    by simp
qed

section \<open>The cursor and the observed size\<close>

text \<open>
  Claim C7, as stated, fails: a session has read a file of 10 bytes, the file is replaced
  by one of 4 bytes, and the pass that observes the size 4 leaves the cursor at 10.
\<close>

theorem truncated_file_counterexample:
  "cursor
     (run [Watch None (steady (regular_file posix_EOL default_highWaterMark ''aaaaaaaaa\<newline>'')),
           Notify ''change'',
           Settle (regular_file posix_EOL default_highWaterMark ''bbb\<newline>'')]
        (initial ''app.log'')) = 10
   \<and> stat (regular_file posix_EOL default_highWaterMark ''bbb\<newline>'')
       = Inr \<lparr>st_size = 4, st_isFile = True\<rparr>"
  by (simp add: model_defs splitter_defs)

text \<open>
  Claim C7, as amended. The cursor is clamped by \<open>watch\<close> only: when the \<open>stat\<close> of a call
  of \<open>watch\<close> on a session that is not watching reports a size below the cursor the call
  starts from, the cursor is that size when the call ends. A read pass whose \<open>stat\<close>
  reports a size that is not above the cursor reads nothing and leaves the cursor as it
  is.
\<close>

theorem cursor_clamped_by_watch_only:
  "(watcher self = None \<and> stat_first env = Inr fileData
      \<and> st_size fileData < (case c of None \<Rightarrow> cursor self | Some x \<Rightarrow> x)
    \<longrightarrow> cursor (fst (watch c env self)) = st_size fileData)
   \<and> (stat penv = Inr st \<and> st_size st \<le> cursor self
    \<longrightarrow> streamFileFromCursor penv self = (self\<lparr>passes := passes self + 1\<rparr>, None))"
proof -
  have a: "watcher self = None \<and> stat_first env = Inr fileData
      \<and> st_size fileData < (case c of None \<Rightarrow> cursor self | Some x \<Rightarrow> x)
    \<longrightarrow> cursor (fst (watch c env self)) = st_size fileData"
    by (simp add: watch_def processFromFileName_def stat_and_wait_def
          isFile_property_truthy_def Let_def split: option.split)
  have b: "stat penv = Inr st \<and> st_size st \<le> cursor self
    \<longrightarrow> streamFileFromCursor penv self = (self\<lparr>passes := passes self + 1\<rparr>, None)"
    by (simp add: streamFileFromCursor_def Let_def)
  from a b show ?thesis by blast
qed

theorem cursor_clamped_by_watch_only_witness:
  "cursor (fst (watch (Some 10) (steady (regular_file posix_EOL default_highWaterMark ''bbb\<newline>''))
                  (initial ''app.log''))) = 4
   \<and> streamFileFromCursor (regular_file posix_EOL default_highWaterMark ''bbb\<newline>'')
        ((initial ''app.log'')\<lparr>cursor := 10\<rparr>)
      = ((initial ''app.log'')\<lparr>cursor := 10, passes := 1\<rparr>, None)"
  using cursor_clamped_by_watch_only
    [where self = "initial ''app.log''"
       and env = "steady (regular_file posix_EOL default_highWaterMark ''bbb\<newline>'')"
       and fileData = "\<lparr>st_size = 4, st_isFile = True\<rparr>" and c = "Some 10"]
    cursor_clamped_by_watch_only
    [where self = "(initial ''app.log'')\<lparr>cursor := 10\<rparr>"
       and penv = "regular_file posix_EOL default_highWaterMark ''bbb\<newline>''"
       and st = "\<lparr>st_size = 4, st_isFile = True\<rparr>"]
  by (simp add: steady_def regular_file_def initial_def)

section \<open>Watching a directory\<close>

text \<open>
  Claim C8 says that \<open>watch\<close> fails on a path that is not a regular file. The code
  departs from it on this input: the path is a directory whose reported size is 4096 and
  the call is \<open>watch({cursor: 4096})\<close>. The test of line 104 never fails, no pass is run,
  and the call attaches a watcher and returns; so does \<open>watch()\<close> on a directory whose
  reported size is 0. With the cursor 0 and the size 4096 the call does fail, with the
  error \<open>EISDIR\<close> of the read stream.
\<close>

theorem watch_directory_not_refused:
  "watch (Some 4096) (steady (directory posix_EOL 4096)) (initial ''/tmp'') =
     ((initial ''/tmp'')\<lparr>cursor := 4096, watcher := Some 0, live := [0], created := 1\<rparr>,
      Returns ())
   \<and> watch None (steady (directory posix_EOL 0)) (initial ''/proc'') =
     ((initial ''/proc'')\<lparr>watcher := Some 0, live := [0], created := 1\<rparr>, Returns ())
   \<and> snd (watch None (steady (directory posix_EOL 4096)) (initial ''/tmp''))
       = Throws (SystemError ''EISDIR'')"
  by (simp add: model_defs)

section \<open>The constructor\<close>

text \<open>
  Claim C9, as stated, fails: the constructor accepts the empty path.
\<close>

theorem constructor_counterexample:
  "new_TailCat (Some '''') = Inr (initial '''')"
  by (simp add: new_TailCat_def validateFileName_def)

text \<open>
  Claim C9, as amended. The constructor throws, before it returns, when its argument is
  \<open>undefined\<close>; every string is accepted as the path, the empty string too.
\<close>

theorem constructor_checks_undefined_only:
  "new_TailCat None = Inl (Error ''No file name has been passed'')
   \<and> new_TailCat (Some fileName) = Inr (initial fileName)"
  by (simp add: new_TailCat_def validateFileName_def)

theorem constructor_checks_undefined_only_witness:
  "new_TailCat (Some ''/var/log/app.log'') = Inr (initial ''/var/log/app.log'')"
  using constructor_checks_undefined_only [of "''/var/log/app.log''"] by simp

section \<open>A chunk without a separator\<close>

text \<open>
  Claim C10. When an item of the stream contains no occurrence of the line separator, the
  loop body emits exactly one line, the carried fragment followed by the text
  \<open>undefined\<close> (the filter for blank lines never removes it, since that text is not
  blank), and the item itself becomes the new carried fragment.
\<close>

theorem chunk_without_separator:
  assumes "eol \<noteq> []" and "\<not> includes_str stringChunk eol"
  shows "for_await_body eol tail stringChunk =
           (stringChunk,
            if trim (tail @ ''undefined'') = [] then [] else [tail @ ''undefined''])
         \<and> trim (tail @ ''undefined'') \<noteq> []"
  using body_no_separator [OF assms] undefined_not_blank [of tail] by simp

theorem chunk_without_separator_witness:
  "''\<newline>'' \<noteq> [] \<and> \<not> includes_str ''bar'' ''\<newline>''
   \<and> for_await_body ''\<newline>'' ''foo'' ''bar'' = (''bar'', [''fooundefined''])"
  using chunk_without_separator [of "''\<newline>''" "''bar''" "''foo''"]
  by simp

end
